theory Spec2Isabelle
  imports Complex_Main "HOL-Library.AList"
begin

section \<open>Data model of movie_recommendations.py\<close>

text \<open>
  Identifiers are Python integers (\<open>int\<close>). A Python dictionary that is only looked up
  is a map; the per-user dictionary, which \<open>predict_rating\<close> iterates in insertion order,
  is an association list maintained with \<open>AList.update\<close> (an existing key keeps its
  place, a new key goes to the end, as in Python).
\<close>

datatype error = BadInputError | KeyError | TypeError

text \<open>
  Ratings and similarities are Python floats. A finite float is the real number it denotes
  (\<open>-0.0\<close> is 0, and \<open>== 0\<close> is equality with 0). What \<open>+\<close>, \<open>-\<close>, \<open>*\<close> and \<open>/\<close>
  return on floats is not fixed by the model: the four operations are the fields of a record
  that every function below takes as its first argument, and they are applied in the order
  in which the code applies them. A statement about an arbitrary \<open>fl\<close> therefore holds
  whatever the rounding; \<open>exact_ops\<close> is arithmetic without rounding. \<open>abs\<close> is exact on
  floats, the constants 0, 1, 2.5 and 4.5 are floats, and an \<open>int\<close> operand is converted
  without loss.
\<close>

record float_ops =
  fadd :: "real \<Rightarrow> real \<Rightarrow> real"
  fsub :: "real \<Rightarrow> real \<Rightarrow> real"
  fmul :: "real \<Rightarrow> real \<Rightarrow> real"
  fdiv :: "real \<Rightarrow> real \<Rightarrow> real"

definition exact_ops :: float_ops where
  "exact_ops = \<lparr>fadd = (+), fsub = (-), fmul = (*), fdiv = (/)\<rparr>"

text \<open>What rounding to nearest keeps of the signs: a sum of nonnegative floats and a
  quotient of a nonnegative by a positive float are nonnegative, and 1 minus a nonnegative
  float is at most 1 (0 and 1 are floats, and rounding is monotone).\<close>

definition sign_preserving :: "float_ops \<Rightarrow> bool" where
  "sign_preserving fl \<longleftrightarrow>
     (\<forall>x y. 0 \<le> x \<longrightarrow> 0 \<le> y \<longrightarrow> 0 \<le> fadd fl x y) \<and>
     (\<forall>x y. 0 \<le> x \<longrightarrow> 0 < y \<longrightarrow> 0 \<le> fdiv fl x y) \<and>
     (\<forall>y. 0 \<le> y \<longrightarrow> fsub fl 1 y \<le> 1)"

record movie =
  id_movie :: int
  title :: string
  users :: "int list"
  similarities :: "int \<rightharpoonup> real"

type_synonym ratings = "(int \<times> real) list"

text \<open>The two instance variables of class \<open>Movie_Recommendations\<close>. Movie objects live
  in \<open>movie_dict\<close> and are addressed by their key, so that a write through one reference
  is seen through every other.\<close>

record movie_recommendations =
  user_dict :: "int \<rightharpoonup> ratings"
  movie_dict :: "int \<rightharpoonup> movie"

definition Movie :: "int \<Rightarrow> string \<Rightarrow> movie" where
  "Movie i t = \<lparr>id_movie = i, title = t, users = [], similarities = Map.empty\<rparr>"

section \<open>Loading (the constructor)\<close>

text \<open>The rows are the parsed lines of the two files, header removed.\<close>

fun load_movies :: "(int \<times> string) list \<Rightarrow> (int \<rightharpoonup> movie) \<Rightarrow> (int \<rightharpoonup> movie)" where
  "load_movies [] md = md"
| "load_movies ((i, t) # rest) md = load_movies rest (md(i \<mapsto> Movie i t))"

fun load_ratings ::
  "(int \<times> int \<times> real) list \<Rightarrow> movie_recommendations \<Rightarrow> error + movie_recommendations" where
  "load_ratings [] s = Inr s"
| "load_ratings ((u, m, r) # rest) s =
     (let ud = (case user_dict s u of
                  Some seen \<Rightarrow> (user_dict s)(u \<mapsto> AList.update m r seen)
                | None \<Rightarrow> (user_dict s)(u \<mapsto> [(m, r)]))
      in case movie_dict s m of
           None \<Rightarrow> Inl KeyError
         | Some a \<Rightarrow>
             load_ratings rest
               \<lparr>user_dict = ud,
                movie_dict = (movie_dict s)(m \<mapsto> a\<lparr>users := users a @ [u]\<rparr>)\<rparr>)"

definition init ::
  "(int \<times> string) list \<Rightarrow> (int \<times> int \<times> real) list \<Rightarrow> error + movie_recommendations" where
  "init movie_rows rating_rows =
     load_ratings rating_rows
       \<lparr>user_dict = Map.empty, movie_dict = load_movies movie_rows Map.empty\<rparr>"

section \<open>Movie.compute_similarity\<close>

text \<open>The loop over \<open>movie_1_users\<close> with its two accumulators. A missing key in
  \<open>user_dict[user][...]\<close> raises \<open>KeyError\<close>.\<close>

fun similarity_loop ::
  "float_ops \<Rightarrow> (int \<rightharpoonup> ratings) \<Rightarrow> int \<Rightarrow> int \<Rightarrow> int list \<Rightarrow> int list \<Rightarrow> real \<Rightarrow> nat
     \<Rightarrow> error + real \<times> nat" where
  "similarity_loop fl ud self_id other_movie_id [] movie_2_users total_diff count = Inr (total_diff, count)"
| "similarity_loop fl ud self_id other_movie_id (user # rest) movie_2_users total_diff count =
     (if user \<in> set movie_2_users then
        (case ud user of
           None \<Rightarrow> Inl KeyError
         | Some seen \<Rightarrow>
             (case map_of seen self_id of
                None \<Rightarrow> Inl KeyError
              | Some rating \<Rightarrow>
                  (case map_of seen other_movie_id of
                     None \<Rightarrow> Inl KeyError
                   | Some rating2 \<Rightarrow>
                       similarity_loop fl ud self_id other_movie_id rest movie_2_users
                         (fadd fl total_diff \<bar>fsub fl rating rating2\<bar>) (count + 1))))
      else similarity_loop fl ud self_id other_movie_id rest movie_2_users total_diff count)"

definition compute_similarity ::
  "float_ops \<Rightarrow> movie \<Rightarrow> int \<Rightarrow> (int \<rightharpoonup> movie) \<Rightarrow> (int \<rightharpoonup> ratings) \<Rightarrow> error + real" where
  "compute_similarity fl self other_movie_id md ud =
     (case md other_movie_id of
        None \<Rightarrow> Inl KeyError
      | Some other \<Rightarrow>
          (case similarity_loop fl ud (id_movie self) other_movie_id (users self) (users other) 0 0 of
             Inl e \<Rightarrow> Inl e
           | Inr (total_diff, count) \<Rightarrow>
               Inr (if count = 0 then 0
                    else (let avg_diff = fdiv fl total_diff (real count)
                          in fsub fl 1 (fdiv fl avg_diff 4.5)))))"

section \<open>Movie.get_similarity\<close>

text \<open>The body of the \<open>try\<close> block. \<open>self\<close> is the object stored under \<open>self_key\<close>;
  the second store goes through \<open>movie_dict[other_movie_id]\<close> after the first one was
  made, so when both keys name one object both entries land in the same cache.\<close>

definition get_similarity_try ::
  "float_ops \<Rightarrow> movie_recommendations \<Rightarrow> int \<Rightarrow> int \<Rightarrow> (error + real) \<times> movie_recommendations" where
  "get_similarity_try fl s self_key other_movie_id =
     (case movie_dict s self_key of
        None \<Rightarrow> (Inl KeyError, s)
      | Some self \<Rightarrow>
          (case similarities self other_movie_id of
             Some v \<Rightarrow> (Inr v, s)
           | None \<Rightarrow>
               (if movie_dict s other_movie_id = None then (Inl BadInputError, s)
                else
                  (case compute_similarity fl self other_movie_id (movie_dict s) (user_dict s) of
                     Inl e \<Rightarrow> (Inl e, s)
                   | Inr similarity \<Rightarrow>
                       (let md1 = (movie_dict s)(self_key \<mapsto>
                                    self\<lparr>similarities :=
                                      (similarities self)(other_movie_id \<mapsto> similarity)\<rparr>)
                        in case md1 other_movie_id of
                             None \<Rightarrow> (Inl KeyError, s\<lparr>movie_dict := md1\<rparr>)
                           | Some other \<Rightarrow>
                               (Inr similarity,
                                s\<lparr>movie_dict := md1(other_movie_id \<mapsto>
                                    other\<lparr>similarities :=
                                      (similarities other)(id_movie self \<mapsto> similarity)\<rparr>)\<rparr>))))))"

text \<open>\<open>except BadInputError: pass\<close>: the method then falls off its end and returns
  Python's \<open>None\<close>, here the value \<open>Inr None\<close>. Any other exception propagates.\<close>

definition get_similarity ::
  "float_ops \<Rightarrow> movie_recommendations \<Rightarrow> int \<Rightarrow> int \<Rightarrow> (error + real option) \<times> movie_recommendations" where
  "get_similarity fl s self_key other_movie_id =
     (case get_similarity_try fl s self_key other_movie_id of
        (Inl BadInputError, s') \<Rightarrow> (Inr None, s')
      | (Inl e, s') \<Rightarrow> (Inl e, s')
      | (Inr v, s') \<Rightarrow> (Inr (Some v), s'))"

section \<open>Movie_Recommendations.predict_rating\<close>

text \<open>The loop over the user's dictionary. Multiplying or adding Python's \<open>None\<close>
  raises \<open>TypeError\<close>.\<close>

fun predict_loop ::
  "float_ops \<Rightarrow> movie_recommendations \<Rightarrow> int \<Rightarrow> ratings \<Rightarrow> real \<Rightarrow> real
     \<Rightarrow> (error + real \<times> real) \<times> movie_recommendations" where
  "predict_loop fl s movie_id [] numerator denominator = (Inr (numerator, denominator), s)"
| "predict_loop fl s movie_id ((movie, rating) # rest) numerator denominator =
     (case get_similarity fl s movie_id movie of
        (Inl e, s1) \<Rightarrow> (Inl e, s1)
      | (Inr None, s1) \<Rightarrow> (Inl TypeError, s1)
      | (Inr (Some sim1), s1) \<Rightarrow>
          (case get_similarity fl s1 movie_id movie of
             (Inl e, s2) \<Rightarrow> (Inl e, s2)
           | (Inr None, s2) \<Rightarrow> (Inl TypeError, s2)
           | (Inr (Some sim2), s2) \<Rightarrow>
               predict_loop fl s2 movie_id rest
                 (fadd fl numerator (fmul fl rating sim1)) (fadd fl denominator sim2)))"

definition predict_rating ::
  "float_ops \<Rightarrow> movie_recommendations \<Rightarrow> int \<Rightarrow> int \<Rightarrow> (error + real) \<times> movie_recommendations" where
  "predict_rating fl s user_id movie_id =
     (case user_dict s user_id of
        None \<Rightarrow> (Inl BadInputError, s)
      | Some movies_seen \<Rightarrow>
          (if movie_dict s movie_id = None then (Inl BadInputError, s)
           else
             (case map_of movies_seen movie_id of
                Some r \<Rightarrow> (Inr r, s)
              | None \<Rightarrow>
                  (case predict_loop fl s movie_id movies_seen 0 0 of
                     (Inl e, s') \<Rightarrow> (Inl e, s')
                   | (Inr (numerator, denominator), s') \<Rightarrow>
                       (Inr (if denominator = 0 then 2.5 else fdiv fl numerator denominator),
                        s')))))"

section \<open>Movie_Recommendations.predict_ratings\<close>

text \<open>The rows are the parsed lines of the test ratings file, header removed.\<close>

fun predict_ratings_loop ::
  "float_ops \<Rightarrow> movie_recommendations \<Rightarrow> (int \<times> int \<times> real) list \<Rightarrow> (int \<times> string \<times> real \<times> real) list
     \<Rightarrow> (error + (int \<times> string \<times> real \<times> real) list) \<times> movie_recommendations" where
  "predict_ratings_loop fl s [] movie_list = (Inr movie_list, s)"
| "predict_ratings_loop fl s ((u, m, actual) # rest) movie_list =
     (case predict_rating fl s u m of
        (Inl e, s1) \<Rightarrow> (Inl e, s1)
      | (Inr prediction, s1) \<Rightarrow>
          (case movie_dict s1 m of
             None \<Rightarrow> (Inl KeyError, s1)
           | Some mv \<Rightarrow>
               predict_ratings_loop fl s1 rest (movie_list @ [(u, title mv, prediction, actual)])))"

definition predict_ratings ::
  "float_ops \<Rightarrow> movie_recommendations \<Rightarrow> (int \<times> int \<times> real) list
     \<Rightarrow> (error + (int \<times> string \<times> real \<times> real) list) \<times> movie_recommendations" where
  "predict_ratings fl s rows = predict_ratings_loop fl s rows []"

section \<open>The running example\<close>

text \<open>Three movies; user 1 rates movies 1 and 2, user 2 rates movies 1 and 2, user 3 rates
  movie 3.\<close>

definition example_movies :: "(int \<times> string) list" where
  "example_movies = [(1, ''A''), (2, ''B''), (3, ''C'')]"

definition example_ratings :: "(int \<times> int \<times> real) list" where
  "example_ratings = [(1, 1, 5), (1, 2, 3), (2, 1, 4), (2, 2, 2), (3, 3, 1)]"

definition example_db :: movie_recommendations where
  "example_db =
     \<lparr>user_dict = [1 \<mapsto> [(1, 5), (2, 3)], 2 \<mapsto> [(1, 4), (2, 2)], 3 \<mapsto> [(3, 1)]],
      movie_dict =
        [1 \<mapsto> \<lparr>id_movie = 1, title = ''A'', users = [1, 2], similarities = Map.empty\<rparr>,
         2 \<mapsto> \<lparr>id_movie = 2, title = ''B'', users = [1, 2], similarities = Map.empty\<rparr>,
         3 \<mapsto> \<lparr>id_movie = 3, title = ''C'', users = [3], similarities = Map.empty\<rparr>]\<rparr>"

section \<open>Invariant of a loaded database\<close>

text \<open>What the constructor establishes and no later operation disturbs: a movie object
  carries its own key as \<open>id\<close>; every user in a movie's \<open>users\<close> list has a rating for
  that movie; every movie a user rated is in \<open>movie_dict\<close>.\<close>

definition wf_db :: "movie_recommendations \<Rightarrow> bool" where
  "wf_db s \<longleftrightarrow>
     (\<forall>k A. movie_dict s k = Some A \<longrightarrow>
        id_movie A = k \<and>
        (\<forall>u \<in> set (users A). \<exists>seen. user_dict s u = Some seen \<and> map_of seen k \<noteq> None)) \<and>
     (\<forall>u seen m. user_dict s u = Some seen \<longrightarrow> map_of seen m \<noteq> None \<longrightarrow>
        movie_dict s m \<noteq> None)"

text \<open>The part of the movie dictionary that is not a similarity cache: which keys it has,
  and each movie's id, title and users list.\<close>

definition catalog_membership ::
  "movie_recommendations \<Rightarrow> int \<Rightarrow> (int \<times> string \<times> int list) option" where
  "catalog_membership s k = map_option (\<lambda>m. (id_movie m, title m, users m)) (movie_dict s k)"

section \<open>Closed forms the operations are compared with\<close>

text \<open>\<open>user_dict[u][m]\<close> where it exists (0 stands in where it does not; the invariant
  rules that out wherever the value is used).\<close>

definition rating_of :: "(int \<rightharpoonup> ratings) \<Rightarrow> int \<Rightarrow> int \<Rightarrow> real" where
  "rating_of ud u m =
     (case ud u of None \<Rightarrow> 0
      | Some seen \<Rightarrow> (case map_of seen m of None \<Rightarrow> 0 | Some r \<Rightarrow> r))"

text \<open>The entries of the first movie's users list that occur in the second movie's users
  list, in order and with repetitions.\<close>

definition common_raters :: "movie \<Rightarrow> movie \<Rightarrow> int list" where
  "common_raters A B = filter (\<lambda>u. u \<in> set (users B)) (users A)"

text \<open>One minus the average absolute rating difference over a list of raters, divided by
  4.5, in exact arithmetic; zero for the empty list.\<close>

definition listed_similarity :: "(int \<rightharpoonup> ratings) \<Rightarrow> int \<Rightarrow> int \<Rightarrow> int list \<Rightarrow> real" where
  "listed_similarity ud a b cs =
     (if cs = [] then 0
      else 1 - ((\<Sum>u\<leftarrow>cs. \<bar>rating_of ud u a - rating_of ud u b\<bar>) / real (length cs)) / 4.5)"

text \<open>The specification's wording: the same average, taken over the intersection of the
  two rater sets, in exact arithmetic.\<close>

definition spec_similarity :: "(int \<rightharpoonup> ratings) \<Rightarrow> int \<Rightarrow> int \<Rightarrow> int set \<Rightarrow> real" where
  "spec_similarity ud a b I =
     (if I = {} then 0
      else 1 - ((\<Sum>u\<in>I. \<bar>rating_of ud u a - rating_of ud u b\<bar>) / real (card I)) / 4.5)"

text \<open>The value the similarity operation returns for a pair in a given state.\<close>

definition similarity_of :: "float_ops \<Rightarrow> movie_recommendations \<Rightarrow> int \<Rightarrow> int \<Rightarrow> real" where
  "similarity_of fl s a b = (case fst (get_similarity fl s a b) of Inr (Some v) \<Rightarrow> v | _ \<Rightarrow> 0)"

text \<open>The two sums of the weighted average, accumulated from left to right over a user's
  ratings with the float operations: rating times similarity, and similarity, where the
  similarity is that of the rated movie to the target movie.\<close>

fun weighted_sums ::
  "float_ops \<Rightarrow> movie_recommendations \<Rightarrow> int \<Rightarrow> ratings \<Rightarrow> real \<Rightarrow> real \<Rightarrow> real \<times> real" where
  "weighted_sums fl s movie_id [] numerator denominator = (numerator, denominator)"
| "weighted_sums fl s movie_id ((k, r) # rest) numerator denominator =
     weighted_sums fl s movie_id rest
       (fadd fl numerator (fmul fl r (similarity_of fl s movie_id k)))
       (fadd fl denominator (similarity_of fl s movie_id k))"

text \<open>The weighted average: the first sum divided by the second, with the fallback 2.5 for a
  second sum (the weight sum) equal to zero.\<close>

definition weighted_average ::
  "float_ops \<Rightarrow> movie_recommendations \<Rightarrow> int \<Rightarrow> ratings \<Rightarrow> real" where
  "weighted_average fl s movie_id seen =
     (case weighted_sums fl s movie_id seen 0 0 of
        (numerator, denominator) \<Rightarrow>
          if denominator = 0 then 2.5 else fdiv fl numerator denominator)"

text \<open>The state in which a batch finds the database after it has predicted a prefix of its
  rows.\<close>

fun run_predictions ::
  "float_ops \<Rightarrow> movie_recommendations \<Rightarrow> (int \<times> int \<times> real) list \<Rightarrow> movie_recommendations" where
  "run_predictions fl s [] = s"
| "run_predictions fl s ((u, m, actual) # rest) = run_predictions fl (snd (predict_rating fl s u m)) rest"

text \<open>The catalog title of a movie, and what the batch operation is expected to produce for
  row \<open>i\<close> of its input: the row's user id, the title of the row's movie, the rating that
  \<open>predict_rating\<close> returns for the row in the state left by the rows before it, and the
  row's actual rating. No tuple is expected where that call raises.\<close>

definition title_of :: "movie_recommendations \<Rightarrow> int \<Rightarrow> string option" where
  "title_of s m = map_option title (movie_dict s m)"

definition batch_row ::
  "float_ops \<Rightarrow> movie_recommendations \<Rightarrow> (int \<times> int \<times> real) list \<Rightarrow> nat \<Rightarrow> (int \<times> string \<times> real \<times> real)
     \<Rightarrow> bool" where
  "batch_row fl s rows i x =
     (case rows ! i of
        (u, m, actual) \<Rightarrow>
          (case (title_of s m, fst (predict_rating fl (run_predictions fl s (take i rows)) u m)) of
             (Some t, Inr p) \<Rightarrow> x = (u, t, p, actual)
           | _ \<Rightarrow> False))"

section \<open>An example with a repeated training row\<close>

text \<open>The training file lists the rating of user 1 for movie 1 twice, so user 1 is appended
  twice to the users list of movie 1.\<close>

definition dup_ratings :: "(int \<times> int \<times> real) list" where
  "dup_ratings = [(1, 1, 5), (1, 1, 5), (1, 2, 3), (2, 1, 4), (2, 2, 4)]"

definition dup_movie_1 :: movie where
  "dup_movie_1 = \<lparr>id_movie = 1, title = ''A'', users = [1, 1, 2], similarities = Map.empty\<rparr>"

definition dup_movie_2 :: movie where
  "dup_movie_2 = \<lparr>id_movie = 2, title = ''B'', users = [1, 2], similarities = Map.empty\<rparr>"

definition dup_db :: movie_recommendations where
  "dup_db =
     \<lparr>user_dict = [1 \<mapsto> [(1, 5), (2, 3)], 2 \<mapsto> [(1, 4), (2, 4)]],
      movie_dict =
        [1 \<mapsto> dup_movie_1, 2 \<mapsto> dup_movie_2,
         3 \<mapsto> \<lparr>id_movie = 3, title = ''C'', users = [], similarities = Map.empty\<rparr>]\<rparr>"

section \<open>An example in which a prediction uses a nonzero similarity\<close>

text \<open>The running example with one more training row: user 3 also rates movie 1, with 2.\<close>

definition rated_ratings :: "(int \<times> int \<times> real) list" where
  "rated_ratings = example_ratings @ [(3, 1, 2)]"

definition rated_db :: movie_recommendations where
  "rated_db =
     \<lparr>user_dict = [1 \<mapsto> [(1, 5), (2, 3)], 2 \<mapsto> [(1, 4), (2, 2)], 3 \<mapsto> [(3, 1), (1, 2)]],
      movie_dict =
        [1 \<mapsto> \<lparr>id_movie = 1, title = ''A'', users = [1, 2, 3], similarities = Map.empty\<rparr>,
         2 \<mapsto> \<lparr>id_movie = 2, title = ''B'', users = [1, 2], similarities = Map.empty\<rparr>,
         3 \<mapsto> \<lparr>id_movie = 3, title = ''C'', users = [3], similarities = Map.empty\<rparr>]\<rparr>"

section \<open>Similarity caches and sequences of calls\<close>

text \<open>\<open>cache s a b\<close> is the entry for \<open>b\<close> in the similarity cache of the movie stored
  under \<open>a\<close>. \<open>cache_sym\<close> says that the two caches of every pair agree, as they do after
  loading, when all caches are empty. A \<open>call\<close> is one use of the two query operations;
  \<open>run_calls\<close> is the database after a sequence of them.\<close>

definition cache :: "movie_recommendations \<Rightarrow> int \<Rightarrow> int \<Rightarrow> real option" where
  "cache s a b = (case movie_dict s a of None \<Rightarrow> None | Some A \<Rightarrow> similarities A b)"

definition cache_sym :: "movie_recommendations \<Rightarrow> bool" where
  "cache_sym s \<longleftrightarrow> (\<forall>a b. cache s a b = cache s b a)"

datatype call = Get_similarity int int | Predict_rating int int

fun run_calls :: "float_ops \<Rightarrow> movie_recommendations \<Rightarrow> call list \<Rightarrow> movie_recommendations" where
  "run_calls fl s [] = s"
| "run_calls fl s (Get_similarity a b # cs) = run_calls fl (snd (get_similarity fl s a b)) cs"
| "run_calls fl s (Predict_rating u m # cs) = run_calls fl (snd (predict_rating fl s u m)) cs"

section \<open>Loading establishes the invariant\<close>

lemma load_movies_ids:
  "(\<And>k A. md k = Some A \<Longrightarrow> id_movie A = k \<and> users A = []) \<Longrightarrow>
   load_movies rows md k = Some A \<Longrightarrow> id_movie A = k \<and> users A = []"
proof (induction rows arbitrary: md)
  case Nil
  then show ?case by simp
next
  case (Cons row rows)
  obtain i t where row: "row = (i, t)" by (cases row)
  have "load_movies rows (md(i \<mapsto> Movie i t)) k = Some A"
    using Cons.prems(2) row by simp
  moreover have "\<And>k A. (md(i \<mapsto> Movie i t)) k = Some A \<Longrightarrow> id_movie A = k \<and> users A = []"
    using Cons.prems(1) by (auto simp: Movie_def split: if_splits)
  ultimately show ?case by (rule Cons.IH[rotated])
qed

lemma wf_db_step:
  assumes wf: "wf_db s" and a: "movie_dict s m = Some a"
  shows "wf_db \<lparr>user_dict = (case user_dict s u of
                  Some seen \<Rightarrow> (user_dict s)(u \<mapsto> AList.update m r seen)
                | None \<Rightarrow> (user_dict s)(u \<mapsto> [(m, r)])),
                movie_dict = (movie_dict s)(m \<mapsto> a\<lparr>users := users a @ [u]\<rparr>)\<rparr>"
  using wf a unfolding wf_db_def
  apply (cases "user_dict s u")
   apply (auto simp: update_conv' split: if_splits)
   apply (metis option.distinct(1))
  apply (metis option.inject)
  done

lemma load_ratings_wf:
  "load_ratings rows s = Inr s' \<Longrightarrow> wf_db s \<Longrightarrow> wf_db s'"
proof (induction rows arbitrary: s)
  case Nil
  then show ?case by simp
next
  case (Cons row rows)
  obtain u m r where row: "row = (u, m, r)" by (cases row)
  from Cons.prems(1) row obtain a where a: "movie_dict s m = Some a"
    by (auto simp: Let_def split: option.splits)
  let ?s1 = "\<lparr>user_dict = (case user_dict s u of
                  Some seen \<Rightarrow> (user_dict s)(u \<mapsto> AList.update m r seen)
                | None \<Rightarrow> (user_dict s)(u \<mapsto> [(m, r)])),
                movie_dict = (movie_dict s)(m \<mapsto> a\<lparr>users := users a @ [u]\<rparr>)\<rparr>"
  have "load_ratings rows ?s1 = Inr s'"
    using Cons.prems(1) row a by (simp add: Let_def)
  moreover have "wf_db ?s1" using Cons.prems(2) a by (rule wf_db_step)
  ultimately show ?case by (rule Cons.IH)
qed

lemma init_wf: "init movie_rows rating_rows = Inr s \<Longrightarrow> wf_db s"
  unfolding init_def
  apply (erule load_ratings_wf)
  apply (auto simp: wf_db_def dest: load_movies_ids[rotated])
  done

lemma init_example: "init example_movies example_ratings = Inr example_db"
  by (simp add: init_def example_movies_def example_ratings_def example_db_def Movie_def
      fun_upd_twist)

lemma wf_example_db: "wf_db example_db"
  using init_example by (rule init_wf)

section \<open>Facts about get_similarity\<close>

lemma similarity_loop_error:
  "similarity_loop fl ud a b us vs t c = Inl e \<Longrightarrow> e = KeyError"
  by (induction us arbitrary: t c) (auto split: if_splits option.splits)

lemma compute_similarity_error:
  "compute_similarity fl A b md ud = Inl e \<Longrightarrow> e = KeyError"
  by (auto simp: compute_similarity_def split: option.splits sum.splits
      dest: similarity_loop_error)

lemma get_similarity_unfold:
  "get_similarity fl s a b =
     (case movie_dict s a of
        None \<Rightarrow> (Inl KeyError, s)
      | Some A \<Rightarrow>
          (case similarities A b of
             Some v \<Rightarrow> (Inr (Some v), s)
           | None \<Rightarrow>
               (case movie_dict s b of
                  None \<Rightarrow> (Inr None, s)
                | Some B \<Rightarrow>
                    (case compute_similarity fl A b (movie_dict s) (user_dict s) of
                       Inl e \<Rightarrow> (Inl KeyError, s)
                     | Inr v \<Rightarrow>
                         (Inr (Some v),
                          s\<lparr>movie_dict :=
                              (let md1 = (movie_dict s)(a \<mapsto>
                                           A\<lparr>similarities := (similarities A)(b \<mapsto> v)\<rparr>)
                               in md1(b \<mapsto> (the (md1 b))\<lparr>similarities :=
                                    (similarities (the (md1 b)))(id_movie A \<mapsto> v)\<rparr>))\<rparr>)))))"
  by (auto simp: get_similarity_def get_similarity_try_def Let_def
      split: option.splits sum.splits error.splits dest: compute_similarity_error)

lemma get_similarity_not_BadInput:
  "fst (get_similarity fl s a b) \<noteq> Inl BadInputError"
  by (simp add: get_similarity_unfold split: option.splits sum.splits)

lemma get_similarity_user_dict:
  "user_dict (snd (get_similarity fl s a b)) = user_dict s"
  by (simp add: get_similarity_unfold split: option.splits sum.splits)

lemma get_similarity_membership:
  "catalog_membership (snd (get_similarity fl s a b)) = catalog_membership s"
  by (rule ext) (auto simp: get_similarity_unfold catalog_membership_def Let_def
      split: option.splits sum.splits)

section \<open>Facts about predict_rating\<close>

lemma predict_loop_not_BadInput:
  "fst (predict_loop fl s m seen n d) \<noteq> Inl BadInputError"
proof (induction seen arbitrary: s n d)
  case Nil
  then show ?case by simp
next
  case (Cons p seen)
  obtain k r where p: "p = (k, r)" by (cases p)
  obtain res1 s1 where g1: "get_similarity fl s m k = (res1, s1)" by (cases "get_similarity fl s m k")
  obtain res2 s2 where g2: "get_similarity fl s1 m k = (res2, s2)" by (cases "get_similarity fl s1 m k")
  have n1: "res1 \<noteq> Inl BadInputError"
    using get_similarity_not_BadInput[of fl s m k] g1 by simp
  have n2: "res2 \<noteq> Inl BadInputError"
    using get_similarity_not_BadInput[of fl s1 m k] g2 by simp
  show ?case
    using n1 n2 Cons.IH
    by (auto simp: p g1 g2 split: sum.splits option.splits)
qed

section \<open>Facts about compute_similarity\<close>

lemma exact_ops_simps [simp]:
  "fadd exact_ops x y = x + y" "fsub exact_ops x y = x - y"
  "fmul exact_ops x y = x * y" "fdiv exact_ops x y = x / y"
  by (simp_all add: exact_ops_def)

lemma exact_ops_sign_preserving: "sign_preserving exact_ops"
  by (simp add: sign_preserving_def)

lemma similarity_loop_count:
  "similarity_loop fl ud a b us vs t c = Inr (t', c') \<Longrightarrow>
     c' = c + length (filter (\<lambda>u. u \<in> set vs) us)"
proof (induction us arbitrary: t c)
  case Nil
  then show ?case by simp
next
  case (Cons u us)
  show ?case
  proof (cases "u \<in> set vs")
    case False
    then show ?thesis using Cons.prems Cons.IH[of t c] by simp
  next
    case True
    then obtain t1 where
      rest: "similarity_loop fl ud a b us vs t1 (c + 1) = Inr (t', c')"
      using Cons.prems by (auto split: option.splits)
    from Cons.IH[OF rest] True show ?thesis by simp
  qed
qed

lemma similarity_loop_nonneg:
  "sign_preserving fl \<Longrightarrow> 0 \<le> t \<Longrightarrow>
     similarity_loop fl ud a b us vs t c = Inr (t', c') \<Longrightarrow> 0 \<le> t'"
proof (induction us arbitrary: t c)
  case Nil
  then show ?case by simp
next
  case (Cons u us)
  show ?case
  proof (cases "u \<in> set vs")
    case False
    then show ?thesis using Cons.prems Cons.IH[of t c] by simp
  next
    case True
    then obtain r r2 where
      rest: "similarity_loop fl ud a b us vs (fadd fl t \<bar>fsub fl r r2\<bar>) (c + 1) = Inr (t', c')"
      using Cons.prems by (auto split: option.splits)
    have nn: "0 \<le> fadd fl t \<bar>fsub fl r r2\<bar>"
      using Cons.prems(1,2) by (simp add: sign_preserving_def)
    show ?thesis by (rule Cons.IH[OF Cons.prems(1) nn rest])
  qed
qed

lemma wf_db_id: "wf_db s \<Longrightarrow> movie_dict s k = Some A \<Longrightarrow> id_movie A = k"
  by (simp add: wf_db_def)

lemma wf_db_rater:
  "wf_db s \<Longrightarrow> movie_dict s k = Some A \<Longrightarrow> u \<in> set (users A) \<Longrightarrow>
     \<exists>seen. user_dict s u = Some seen \<and> map_of seen k \<noteq> None"
  unfolding wf_db_def by blast

lemma wf_db_rated:
  "wf_db s \<Longrightarrow> user_dict s u = Some seen \<Longrightarrow> map_of seen m \<noteq> None \<Longrightarrow>
     movie_dict s m \<noteq> None"
  unfolding wf_db_def by blast

lemma wf_db_common_rater:
  assumes wf: "wf_db s" and A: "movie_dict s a = Some A" and B: "movie_dict s b = Some B"
    and uA: "u \<in> set (users A)" and uB: "u \<in> set (users B)"
  shows "\<exists>seen. user_dict s u = Some seen \<and> map_of seen a \<noteq> None \<and> map_of seen b \<noteq> None"
proof -
  obtain seen where 1: "user_dict s u = Some seen" "map_of seen a \<noteq> None"
    using wf_db_rater[OF wf A uA] by blast
  obtain seen' where 2: "user_dict s u = Some seen'" "map_of seen' b \<noteq> None"
    using wf_db_rater[OF wf B uB] by blast
  from 1 2 show ?thesis by simp
qed

lemma similarity_loop_returns:
  assumes "\<And>u. u \<in> set us \<Longrightarrow> u \<in> set vs \<Longrightarrow>
     \<exists>seen. ud u = Some seen \<and> map_of seen a \<noteq> None \<and> map_of seen b \<noteq> None"
  shows "\<exists>t' c'. similarity_loop fl ud a b us vs t c = Inr (t', c')"
  using assms
proof (induction us arbitrary: t c)
  case Nil
  then show ?case by simp
next
  case (Cons u us)
  have IH: "\<And>t c. \<exists>t' c'. similarity_loop fl ud a b us vs t c = Inr (t', c')"
    using Cons.IH Cons.prems by simp
  show ?case
  proof (cases "u \<in> set vs")
    case False
    then show ?thesis using IH by simp
  next
    case True
    obtain seen r r2 where s: "ud u = Some seen" "map_of seen a = Some r"
      "map_of seen b = Some r2"
      using Cons.prems[of u] True by auto
    show ?thesis using True s IH by simp
  qed
qed

lemma compute_similarity_returns:
  assumes wf: "wf_db s" and A: "movie_dict s a = Some A" and B: "movie_dict s b = Some B"
  shows "\<exists>v. compute_similarity fl A b (movie_dict s) (user_dict s) = Inr v"
proof -
  have idA: "id_movie A = a" using wf A by (rule wf_db_id)
  obtain t' c' where
    "similarity_loop fl (user_dict s) a b (users A) (users B) 0 0 = Inr (t', c')"
    using similarity_loop_returns[where us="users A" and vs="users B" and ud="user_dict s"
        and a=a and b=b and fl=fl and t=0 and c=0]
      wf_db_common_rater[OF wf A B] by blast
  then show ?thesis
    by (simp add: compute_similarity_def B idA)
qed

lemma similarity_loop_closed:
  assumes "\<And>u. u \<in> set us \<Longrightarrow> u \<in> set vs \<Longrightarrow>
     \<exists>seen. ud u = Some seen \<and> map_of seen a \<noteq> None \<and> map_of seen b \<noteq> None"
  shows "similarity_loop exact_ops ud a b us vs t c =
     Inr (t + (\<Sum>u\<leftarrow>filter (\<lambda>u. u \<in> set vs) us. \<bar>rating_of ud u a - rating_of ud u b\<bar>),
          c + length (filter (\<lambda>u. u \<in> set vs) us))"
  using assms
proof (induction us arbitrary: t c)
  case Nil
  then show ?case by simp
next
  case (Cons u us)
  have IH: "\<And>t c. similarity_loop exact_ops ud a b us vs t c =
     Inr (t + (\<Sum>u\<leftarrow>filter (\<lambda>u. u \<in> set vs) us. \<bar>rating_of ud u a - rating_of ud u b\<bar>),
          c + length (filter (\<lambda>u. u \<in> set vs) us))"
    using Cons.IH Cons.prems by simp
  show ?case
  proof (cases "u \<in> set vs")
    case False
    then show ?thesis using IH by simp
  next
    case True
    obtain seen r r2 where s: "ud u = Some seen" "map_of seen a = Some r"
      "map_of seen b = Some r2"
      using Cons.prems[of u] True by auto
    show ?thesis using True s IH by (simp add: rating_of_def)
  qed
qed

lemma compute_similarity_closed:
  assumes wf: "wf_db s" and A: "movie_dict s a = Some A" and B: "movie_dict s b = Some B"
  shows "compute_similarity exact_ops A b (movie_dict s) (user_dict s) =
           Inr (listed_similarity (user_dict s) a b (common_raters A B))"
proof -
  have idA: "id_movie A = a" using wf A by (rule wf_db_id)
  show ?thesis
    using similarity_loop_closed[where us="users A" and vs="users B" and ud="user_dict s"
        and a=a and b=b and t=0 and c=0, OF wf_db_common_rater[OF wf A B]]
    by (simp add: compute_similarity_def B idA listed_similarity_def common_raters_def Let_def)
qed

lemma listed_spec_similarity:
  "distinct cs \<Longrightarrow> listed_similarity ud a b cs = spec_similarity ud a b (set cs)"
  by (simp add: listed_similarity_def spec_similarity_def sum_list_distinct_conv_sum_set
      distinct_card)

lemma set_common_raters: "set (common_raters A B) = set (users A) \<inter> set (users B)"
  by (auto simp: common_raters_def)

text \<open>Where no user occurs twice in the users list of the first movie, the code computes, in
  exact arithmetic, the average over the intersection of the two rater sets.\<close>

lemma compute_similarity_spec:
  assumes wf: "wf_db s" and A: "movie_dict s a = Some A" and B: "movie_dict s b = Some B"
    and d: "distinct (users A)"
  shows "compute_similarity exact_ops A b (movie_dict s) (user_dict s) =
           Inr (spec_similarity (user_dict s) a b (set (users A) \<inter> set (users B)))"
proof -
  have "distinct (common_raters A B)" using d by (simp add: common_raters_def)
  then have "listed_similarity (user_dict s) a b (common_raters A B) =
      spec_similarity (user_dict s) a b (set (users A) \<inter> set (users B))"
    using listed_spec_similarity[of "common_raters A B" "user_dict s" a b]
    by (simp add: set_common_raters)
  then show ?thesis using compute_similarity_closed[OF wf A B] by simp
qed

lemma init_dup: "init example_movies dup_ratings = Inr dup_db"
  by (simp add: init_def example_movies_def dup_ratings_def dup_db_def Movie_def
      dup_movie_1_def dup_movie_2_def fun_upd_twist)

lemma wf_dup_db: "wf_db dup_db"
  using init_dup by (rule init_wf)

section \<open>Caches, frame and invariants under the operations\<close>

lemma get_similarity_cached:
  "cache s a b = Some v \<Longrightarrow> get_similarity fl s a b = (Inr (Some v), s)"
  by (auto simp: get_similarity_unfold cache_def split: option.splits)

lemma get_similarity_no_value_state:
  "get_similarity fl s a b = (r, s') \<Longrightarrow> (\<And>v. r \<noteq> Inr (Some v)) \<Longrightarrow> s' = s"
  by (auto simp: get_similarity_unfold split: option.splits sum.splits)

lemma get_similarity_value_cases:
  assumes "get_similarity fl s a b = (Inr (Some v), s')"
  shows "(cache s a b = Some v \<and> s' = s) \<or>
         (cache s a b = None \<and>
          (\<exists>A B. movie_dict s a = Some A \<and> movie_dict s b = Some B \<and>
             compute_similarity fl A b (movie_dict s) (user_dict s) = Inr v \<and>
             s' = s\<lparr>movie_dict :=
                    (let md1 = (movie_dict s)(a \<mapsto> A\<lparr>similarities := (similarities A)(b \<mapsto> v)\<rparr>)
                     in md1(b \<mapsto> (the (md1 b))\<lparr>similarities :=
                          (similarities (the (md1 b)))(id_movie A \<mapsto> v)\<rparr>))\<rparr>))"
  using assms
  by (auto simp: get_similarity_unfold cache_def split: option.splits sum.splits)

lemma get_similarity_cache_update:
  assumes wf: "wf_db s" and sym: "cache_sym s"
    and call: "get_similarity fl s a b = (Inr (Some v), s')"
  shows "cache s' x y = (if (x = a \<and> y = b) \<or> (x = b \<and> y = a) then Some v else cache s x y)"
proof -
  from get_similarity_value_cases[OF call] show ?thesis
  proof (elim disjE conjE exE)
    assume c: "cache s a b = Some v" and s': "s' = s"
    have "cache s b a = Some v" using c sym by (simp add: cache_sym_def)
    with c s' show ?thesis by auto
  next
    fix A B
    assume c: "cache s a b = None" and A: "movie_dict s a = Some A" and B: "movie_dict s b = Some B"
      and s': "s' = s\<lparr>movie_dict :=
                    (let md1 = (movie_dict s)(a \<mapsto> A\<lparr>similarities := (similarities A)(b \<mapsto> v)\<rparr>)
                     in md1(b \<mapsto> (the (md1 b))\<lparr>similarities :=
                          (similarities (the (md1 b)))(id_movie A \<mapsto> v)\<rparr>))\<rparr>"
    have idA: "id_movie A = a" using wf A by (simp add: wf_db_def)
    show ?thesis
      unfolding s' using A B idA
      by (auto simp: cache_def Let_def split: option.splits)
  qed
qed

lemma get_similarity_cache_sym:
  assumes wf: "wf_db s" and sym: "cache_sym s"
  shows "cache_sym (snd (get_similarity fl s a b))"
proof -
  obtain r s' where g: "get_similarity fl s a b = (r, s')" by (cases "get_similarity fl s a b")
  show ?thesis
  proof (cases "\<exists>v. r = Inr (Some v)")
    case True
    then obtain v where "r = Inr (Some v)" by blast
    with g have "get_similarity fl s a b = (Inr (Some v), s')" by simp
    from get_similarity_cache_update[OF wf sym this] show ?thesis
      using sym by (auto simp: g cache_sym_def)
  next
    case False
    then have "s' = s" using get_similarity_no_value_state[OF g] by blast
    then show ?thesis using sym g by simp
  qed
qed

lemma get_similarity_cache_persists:
  assumes wf: "wf_db s" and sym: "cache_sym s" and c: "cache s x y = Some w"
  shows "cache (snd (get_similarity fl s a b)) x y = Some w"
proof -
  obtain r s' where g: "get_similarity fl s a b = (r, s')" by (cases "get_similarity fl s a b")
  show ?thesis
  proof (cases "\<exists>v. r = Inr (Some v)")
    case True
    then obtain v where r: "r = Inr (Some v)" by blast
    with g have g': "get_similarity fl s a b = (Inr (Some v), s')" by simp
    have yx: "cache s y x = Some w" using c sym by (simp add: cache_sym_def)
    have "v = w" if "(x = a \<and> y = b) \<or> (x = b \<and> y = a)"
    proof -
      from that c yx have "cache s a b = Some w" by auto
      from get_similarity_cached[OF this] g' show ?thesis by simp
    qed
    then show ?thesis
      using get_similarity_cache_update[OF wf sym g', of x y] c by (auto simp: g)
  next
    case False
    then have "s' = s" using get_similarity_no_value_state[OF g] by blast
    then show ?thesis using c g by simp
  qed
qed

lemma wf_db_frame:
  assumes u: "user_dict s' = user_dict s" and m: "catalog_membership s' = catalog_membership s"
    and wf: "wf_db s"
  shows "wf_db s'"
proof -
  have k: "\<exists>A. movie_dict s k = Some A \<and> id_movie A = id_movie A' \<and> users A = users A'"
    if "movie_dict s' k = Some A'" for k A'
    using fun_cong[OF m, of k] that
    by (cases "movie_dict s k") (auto simp: catalog_membership_def)
  have d: "movie_dict s' k \<noteq> None" if "movie_dict s k \<noteq> None" for k
    using fun_cong[OF m, of k] that
    by (cases "movie_dict s' k") (auto simp: catalog_membership_def)
  have p1: "id_movie A' = k \<and>
        (\<forall>u\<in>set (users A'). \<exists>seen. user_dict s' u = Some seen \<and> map_of seen k \<noteq> None)"
    if a: "movie_dict s' k = Some A'" for k A'
  proof -
    from k[OF a] obtain A where A: "movie_dict s k = Some A" "id_movie A = id_movie A'"
      "users A = users A'" by blast
    show ?thesis
      using wf_db_id[OF wf A(1)] wf_db_rater[OF wf A(1)] A u by auto
  qed
  have p2: "movie_dict s' mm \<noteq> None"
    if "user_dict s' uu = Some seen" "map_of seen mm \<noteq> None" for uu seen mm
    using wf_db_rated[OF wf, of uu seen mm] u d that by simp
  show ?thesis
    unfolding wf_db_def using p1 p2 by blast
qed

lemma get_similarity_wf: "wf_db s \<Longrightarrow> wf_db (snd (get_similarity fl s a b))"
  by (rule wf_db_frame[OF get_similarity_user_dict get_similarity_membership])

lemma predict_loop_preserves:
  assumes step: "\<And>s a b. P s \<Longrightarrow> P (snd (get_similarity fl s a b))"
  shows "P s \<Longrightarrow> P (snd (predict_loop fl s m seen n d))"
proof (induction seen arbitrary: s n d)
  case Nil
  then show ?case by simp
next
  case (Cons p seen)
  obtain k r where p: "p = (k, r)" by (cases p)
  obtain res1 s1 where g1: "get_similarity fl s m k = (res1, s1)" by (cases "get_similarity fl s m k")
  obtain res2 s2 where g2: "get_similarity fl s1 m k = (res2, s2)" by (cases "get_similarity fl s1 m k")
  have P1: "P s1" using step[OF Cons.prems, of m k] g1 by simp
  have P2: "P s2" using step[OF P1, of m k] g2 by simp
  show ?case
    using P1 P2 Cons.IH[OF P2]
    by (auto simp: p g1 g2 split: sum.splits option.splits)
qed

lemma predict_rating_preserves:
  assumes step: "\<And>s a b. P s \<Longrightarrow> P (snd (get_similarity fl s a b))"
    and P: "P s"
  shows "P (snd (predict_rating fl s u m))"
proof (cases "user_dict s u")
  case None
  then show ?thesis using P by (simp add: predict_rating_def)
next
  case (Some seen)
  obtain res s' where l: "predict_loop fl s m seen 0 0 = (res, s')"
    by (cases "predict_loop fl s m seen 0 0")
  have "P (snd (predict_loop fl s m seen 0 0))"
    using step P by (rule predict_loop_preserves)
  then have "P s'" using l by simp
  then show ?thesis
    using P Some l by (auto simp: predict_rating_def split: option.splits sum.splits)
qed

lemma run_calls_preserves:
  assumes step: "\<And>s a b. P s \<Longrightarrow> P (snd (get_similarity fl s a b))"
    and P: "P s"
  shows "P (run_calls fl s cs)"
  using P
proof (induction cs arbitrary: s)
  case Nil
  then show ?case by simp
next
  case (Cons c cs)
  show ?case
  proof (cases c)
    case (Get_similarity a b)
    have "P (snd (get_similarity fl s a b))" using Cons.prems by (rule step)
    then have "P (run_calls fl (snd (get_similarity fl s a b)) cs)" by (rule Cons.IH)
    then show ?thesis using Get_similarity by simp
  next
    case (Predict_rating u m)
    have "P (snd (predict_rating fl s u m))" using step Cons.prems by (rule predict_rating_preserves)
    then have "P (run_calls fl (snd (predict_rating fl s u m)) cs)" by (rule Cons.IH)
    then show ?thesis using Predict_rating by simp
  qed
qed

lemma cache_user_dict [simp]: "cache (s\<lparr>user_dict := ud'\<rparr>) = cache s"
  by (rule ext)+ (simp add: cache_def)

lemma predict_rating_frame:
  "user_dict (snd (predict_rating fl s u m)) = user_dict s \<and>
   catalog_membership (snd (predict_rating fl s u m)) = catalog_membership s"
proof -
  let ?P = "\<lambda>t. user_dict t = user_dict s \<and> catalog_membership t = catalog_membership s"
  have step: "?P (snd (get_similarity fl t a b))" if "?P t" for t a b
    using that by (simp add: get_similarity_user_dict get_similarity_membership)
  have "?P s" by simp
  then show ?thesis
    using predict_rating_preserves[where P="?P" and s=s and u=u and m=m] step by blast
qed

lemma cache_sym_example_db: "cache_sym example_db"
  by (simp add: cache_sym_def cache_def example_db_def)

section \<open>The prediction loop in closed form\<close>

lemma membership_known:
  "catalog_membership s' = catalog_membership s \<Longrightarrow>
     (movie_dict s' k = None) = (movie_dict s k = None)"
proof -
  assume "catalog_membership s' = catalog_membership s"
  then have "catalog_membership s' k = catalog_membership s k" by simp
  then show ?thesis
    by (cases "movie_dict s k"; cases "movie_dict s' k") (simp_all add: catalog_membership_def)
qed

lemma get_similarity_known:
  "(movie_dict (snd (get_similarity fl s a b)) k = None) = (movie_dict s k = None)"
  by (rule membership_known[OF get_similarity_membership])

lemma get_similarity_returns:
  assumes wf: "wf_db s" and A: "movie_dict s a \<noteq> None" and B: "movie_dict s b \<noteq> None"
  shows "\<exists>v s'. get_similarity fl s a b = (Inr (Some v), s')"
proof -
  obtain A' B' where A': "movie_dict s a = Some A'" and B': "movie_dict s b = Some B'"
    using A B by auto
  obtain v where c: "compute_similarity fl A' b (movie_dict s) (user_dict s) = Inr v"
    using compute_similarity_returns[OF wf A' B'] by blast
  show ?thesis
    by (cases "similarities A' b") (simp_all add: get_similarity_unfold A' B' c)
qed

lemma compute_similarity_cong:
  assumes "id_movie A' = id_movie A" "users A' = users A"
    and "map_option users (md' b) = map_option users (md b)"
  shows "compute_similarity fl A' b md' ud = compute_similarity fl A b md ud"
  using assms
  by (cases "md b"; cases "md' b") (auto simp: compute_similarity_def)

lemma get_similarity_fst_cong:
  assumes u: "user_dict s' = user_dict s" and m: "catalog_membership s' = catalog_membership s"
    and c: "cache s' a b = cache s a b"
  shows "fst (get_similarity fl s' a b) = fst (get_similarity fl s a b)"
proof (cases "movie_dict s a")
  case None
  then have "movie_dict s' a = None" using membership_known[OF m, of a] by simp
  with None show ?thesis by (simp add: get_similarity_unfold)
next
  case (Some A)
  then obtain A' where A': "movie_dict s' a = Some A'"
    using membership_known[OF m, of a] by auto
  have AA: "id_movie A' = id_movie A" "users A' = users A"
    using fun_cong[OF m, of a] Some A' by (simp_all add: catalog_membership_def)
  have cc: "similarities A' b = similarities A b"
    using c Some A' by (simp add: cache_def)
  have bb: "map_option users (movie_dict s' b) = map_option users (movie_dict s b)"
    using fun_cong[OF m, of b]
    by (cases "movie_dict s b"; cases "movie_dict s' b") (auto simp: catalog_membership_def)
  have kb: "(movie_dict s' b = None) = (movie_dict s b = None)"
    by (rule membership_known[OF m])
  have comp: "compute_similarity fl A' b (movie_dict s') (user_dict s') =
              compute_similarity fl A b (movie_dict s) (user_dict s)"
    unfolding u
    by (rule compute_similarity_cong[where md'="movie_dict s'" and md="movie_dict s", OF AA bb])
  show ?thesis
    using kb by (auto simp: get_similarity_unfold Some A' cc comp split: option.splits sum.splits)
qed

lemma get_similarity_stable:
  assumes wf: "wf_db s" and sym: "cache_sym s"
  shows "fst (get_similarity fl (snd (get_similarity fl s a k)) a k') = fst (get_similarity fl s a k')"
proof -
  obtain r s1 where g: "get_similarity fl s a k = (r, s1)" by (cases "get_similarity fl s a k")
  show ?thesis
  proof (cases "\<exists>v. r = Inr (Some v)")
    case False
    then have "s1 = s" using get_similarity_no_value_state[OF g] by blast
    then show ?thesis using g by simp
  next
    case True
    then obtain v where g': "get_similarity fl s a k = (Inr (Some v), s1)" using g by blast
    note upd = get_similarity_cache_update[OF wf sym g']
    show ?thesis
    proof (cases "k' = k")
      case True
      have "cache s1 a k = Some v" using upd[of a k] by simp
      from get_similarity_cached[OF this] show ?thesis using g' True by simp
    next
      case False
      have c: "cache s1 a k' = cache s a k'" using upd[of a k'] False by auto
      have "fst (get_similarity fl s1 a k') = fst (get_similarity fl s a k')"
        using get_similarity_user_dict[of fl s a k] get_similarity_membership[of fl s a k] c
        by (intro get_similarity_fst_cong) (simp_all add: g')
      then show ?thesis by (simp add: g')
    qed
  qed
qed

lemma similarity_of_stable:
  "wf_db s \<Longrightarrow> cache_sym s \<Longrightarrow>
     similarity_of fl (snd (get_similarity fl s a k)) a k' = similarity_of fl s a k'"
  by (simp add: similarity_of_def get_similarity_stable)

lemma weighted_sums_cong:
  "(\<And>k. similarity_of fl s' m k = similarity_of fl s m k) \<Longrightarrow>
     weighted_sums fl s' m seen n d = weighted_sums fl s m seen n d"
  by (induction seen arbitrary: n d) auto

lemma weighted_sums_exact:
  "weighted_sums exact_ops s m seen n d =
     (n + (\<Sum>(k, r)\<leftarrow>seen. r * similarity_of exact_ops s m k),
      d + (\<Sum>(k, r)\<leftarrow>seen. similarity_of exact_ops s m k))"
  by (induction seen arbitrary: n d) (auto simp: add.assoc)

lemma predict_loop_closed:
  assumes "wf_db s" "cache_sym s" "movie_dict s m \<noteq> None"
    and "\<And>k r. (k, r) \<in> set seen \<Longrightarrow> movie_dict s k \<noteq> None"
  shows "fst (predict_loop fl s m seen n d) = Inr (weighted_sums fl s m seen n d)"
  using assms
proof (induction seen arbitrary: s n d)
  case Nil
  then show ?case by simp
next
  case (Cons p seen)
  obtain k r where p: "p = (k, r)" by (cases p)
  have kk: "movie_dict s k \<noteq> None" using Cons.prems(4)[of k r] p by simp
  obtain v s1 where g1: "get_similarity fl s m k = (Inr (Some v), s1)"
    using get_similarity_returns[OF Cons.prems(1) Cons.prems(3) kk] by blast
  have s1: "s1 = snd (get_similarity fl s m k)" using g1 by simp
  have wf1: "wf_db s1" unfolding s1 by (rule get_similarity_wf[OF Cons.prems(1)])
  have sym1: "cache_sym s1" unfolding s1
    by (rule get_similarity_cache_sym[OF Cons.prems(1) Cons.prems(2)])
  have c1: "cache s1 m k = Some v"
    using get_similarity_cache_update[OF Cons.prems(1) Cons.prems(2) g1, of m k] by simp
  have g2: "get_similarity fl s1 m k = (Inr (Some v), s1)"
    by (rule get_similarity_cached[OF c1])
  have known1: "movie_dict s1 x \<noteq> None" if "movie_dict s x \<noteq> None" for x
    using that get_similarity_known[of fl s m k x] by (simp add: s1)
  have v: "similarity_of fl s m k = v" using g1 by (simp add: similarity_of_def)
  have st: "similarity_of fl s1 m k' = similarity_of fl s m k'" for k'
    unfolding s1 by (rule similarity_of_stable[OF Cons.prems(1) Cons.prems(2)])
  have IH: "fst (predict_loop fl s1 m seen (fadd fl n (fmul fl r v)) (fadd fl d v)) =
     Inr (weighted_sums fl s1 m seen (fadd fl n (fmul fl r v)) (fadd fl d v))"
    using Cons.prems(4) by (intro Cons.IH wf1 sym1 known1 Cons.prems(3)) auto
  have "weighted_sums fl s1 m seen (fadd fl n (fmul fl r v)) (fadd fl d v) =
        weighted_sums fl s m seen (fadd fl n (fmul fl r v)) (fadd fl d v)"
    by (rule weighted_sums_cong) (rule st)
  then show ?case
    using IH by (simp add: p g1 g2 v)
qed

lemma init_rated: "init example_movies rated_ratings = Inr rated_db"
  by (simp add: init_def example_movies_def rated_ratings_def example_ratings_def rated_db_def
      Movie_def fun_upd_twist)

lemma wf_rated_db: "wf_db rated_db"
  using init_rated by (rule init_wf)

lemma cache_sym_rated_db: "cache_sym rated_db"
  by (simp add: cache_sym_def cache_def rated_db_def)

section \<open>The batch loop row by row\<close>

lemma title_of_membership:
  "catalog_membership s' = catalog_membership s \<Longrightarrow> title_of s' = title_of s"
proof (rule ext)
  fix m
  assume "catalog_membership s' = catalog_membership s"
  then have "catalog_membership s' m = catalog_membership s m" by simp
  then show "title_of s' m = title_of s m"
    by (cases "movie_dict s m"; cases "movie_dict s' m")
      (simp_all add: catalog_membership_def title_of_def)
qed

lemma predict_rating_title_of: "title_of (snd (predict_rating fl s u m)) = title_of s"
  by (rule title_of_membership) (simp add: predict_rating_frame)

lemma predict_rating_value_known:
  "fst (predict_rating fl s u m) = Inr p \<Longrightarrow> movie_dict s m \<noteq> None"
proof
  assume r: "fst (predict_rating fl s u m) = Inr p" and n: "movie_dict s m = None"
  have "fst (predict_rating fl s u m) = Inl BadInputError"
    using n by (simp add: predict_rating_def split: option.splits)
  with r show False by simp
qed

lemma batch_row_Suc:
  "batch_row fl s ((u, m, a) # rows) (Suc i) x = batch_row fl (snd (predict_rating fl s u m)) rows i x"
  by (simp add: batch_row_def predict_rating_title_of)

lemma batch_row_0:
  "batch_row fl s ((u, m, a) # rows) 0 x =
     (\<exists>t p. title_of s m = Some t \<and> fst (predict_rating fl s u m) = Inr p \<and> x = (u, t, p, a))"
  by (cases "title_of s m"; cases "fst (predict_rating fl s u m)") (simp_all add: batch_row_def)

lemma predict_ratings_loop_rows:
  "fst (predict_ratings_loop fl s rows acc) = Inr out \<longleftrightarrow>
     (\<exists>new. out = acc @ new \<and> length new = length rows \<and>
            (\<forall>i<length rows. batch_row fl s rows i (new ! i)))"
proof (induction rows arbitrary: s acc)
  case Nil
  then show ?case by auto
next
  case (Cons row rows)
  obtain u m a where row: "row = (u, m, a)" by (cases row)
  obtain res s1 where p: "predict_rating fl s u m = (res, s1)" by (cases "predict_rating fl s u m")
  have s1: "s1 = snd (predict_rating fl s u m)" using p by simp
  show ?case
  proof (cases res)
    case (Inl e)
    have no: "\<not> batch_row fl s (row # rows) 0 x" for x
      using p Inl by (simp add: row batch_row_0)
    have "\<not> (\<exists>new. out = acc @ new \<and> length new = length (row # rows) \<and>
            (\<forall>i<length (row # rows). batch_row fl s (row # rows) i (new ! i)))"
    proof
      assume "\<exists>new. out = acc @ new \<and> length new = length (row # rows) \<and>
            (\<forall>i<length (row # rows). batch_row fl s (row # rows) i (new ! i))"
      then obtain new where "\<forall>i<length (row # rows). batch_row fl s (row # rows) i (new ! i)"
        by blast
      then have "batch_row fl s (row # rows) 0 (new ! 0)" by simp
      with no show False by blast
    qed
    moreover have "fst (predict_ratings_loop fl s (row # rows) acc) \<noteq> Inr out"
      using p Inl by (simp add: row)
    ultimately show ?thesis by blast
  next
    case (Inr pr)
    have "movie_dict s m \<noteq> None"
      using predict_rating_value_known[of fl s u m pr] p Inr by simp
    then obtain t where t: "title_of s m = Some t" by (auto simp: title_of_def)
    then have "title_of s1 m = Some t" unfolding s1 by (simp add: predict_rating_title_of)
    then obtain mv where mv: "movie_dict s1 m = Some mv" "title mv = t"
      by (auto simp: title_of_def)
    let ?x = "(u, t, pr, a)"
    have step: "predict_ratings_loop fl s (row # rows) acc = predict_ratings_loop fl s1 rows (acc @ [?x])"
      using p Inr mv by (simp add: row)
    have zero: "batch_row fl s (row # rows) 0 y \<longleftrightarrow> y = ?x" for y
      using p Inr t by (auto simp: row batch_row_0)
    have suc: "batch_row fl s (row # rows) (Suc i) y = batch_row fl s1 rows i y" for i y
      unfolding s1 row by (rule batch_row_Suc)
    have "(\<exists>new. out = acc @ new \<and> length new = length (row # rows) \<and>
            (\<forall>i<length (row # rows). batch_row fl s (row # rows) i (new ! i))) \<longleftrightarrow>
          (\<exists>new'. out = (acc @ [?x]) @ new' \<and> length new' = length rows \<and>
            (\<forall>i<length rows. batch_row fl s1 rows i (new' ! i)))" (is "?L \<longleftrightarrow> ?R")
    proof
      assume ?L
      then obtain new where n: "out = acc @ new" "length new = Suc (length rows)"
        "\<forall>i<Suc (length rows). batch_row fl s (row # rows) i (new ! i)" by auto
      then obtain y new' where new: "new = y # new'" by (cases new) auto
      have "y = ?x" using n(3) zero[of y] new by auto
      moreover have "\<forall>i<length rows. batch_row fl s1 rows i (new' ! i)"
      proof (intro allI impI)
        fix i assume "i < length rows"
        then have "batch_row fl s (row # rows) (Suc i) (new ! Suc i)" using n(3) by simp
        then show "batch_row fl s1 rows i (new' ! i)" using suc new by simp
      qed
      ultimately show ?R using n new by auto
    next
      assume ?R
      then obtain new' where n: "out = (acc @ [?x]) @ new'" "length new' = length rows"
        "\<forall>i<length rows. batch_row fl s1 rows i (new' ! i)" by auto
      have "\<forall>i<length (row # rows). batch_row fl s (row # rows) i ((?x # new') ! i)"
      proof (intro allI impI)
        fix i assume i: "i < length (row # rows)"
        show "batch_row fl s (row # rows) i ((?x # new') ! i)"
        proof (cases i)
          case 0
          then show ?thesis using zero by simp
        next
          case (Suc j)
          then show ?thesis using i n(3) suc by simp
        qed
      qed
      then show ?L using n by (intro exI[of _ "?x # new'"]) simp
    qed
    then show ?thesis using Cons.IH[of s1 "acc @ [?x]"] step by simp
  qed
qed

section \<open>The claims\<close>

text \<open>C3. The claim: when the other item is not a known item (and not already in the
  caller's cache), the similarity operation fails with an error that reaches the caller;
  the docstring of \<open>get_similarity\<close> promises the same (\<open>BadInputError\<close> for an id that
  is not valid).
  The code raises \<open>BadInputError\<close> inside its \<open>try\<close> block and catches it itself: asked
  for the similarity of movie 1 to the unknown movie 99 in the example database, it
  returns Python's \<open>None\<close>, raises nothing, and leaves the database as it was.\<close>

theorem get_similarity_unknown_item_returns_None:
  "get_similarity exact_ops example_db 1 99 = (Inr None, example_db)"
  by (simp add: get_similarity_def get_similarity_try_def example_db_def)

text \<open>C5. For a known user and a known movie that the user has already rated,
  \<open>predict_rating\<close> returns exactly the stored rating; the result is the same whatever
  users lists and similarity caches the movie objects hold, so no similarity enters it.\<close>

theorem predict_rating_rated:
  "user_dict s user_id = Some movies_seen \<Longrightarrow> movie_dict s movie_id = Some mv \<Longrightarrow>
   map_of movies_seen movie_id = Some r \<Longrightarrow>
     fst (predict_rating fl s user_id movie_id) = Inr r \<and>
     (\<forall>md'. md' movie_id \<noteq> None \<longrightarrow>
        fst (predict_rating fl (s\<lparr>movie_dict := md'\<rparr>) user_id movie_id) = Inr r)"
  by (simp add: predict_rating_def)

theorem predict_rating_rated_witness:
  "user_dict example_db 1 = Some [(1, 5), (2, 3)] \<and>
   movie_dict example_db 2 = Some \<lparr>id_movie = 2, title = ''B'', users = [1, 2], similarities = Map.empty\<rparr> \<and>
   map_of [(1, 5), (2, 3 :: real)] (2 :: int) = Some 3 \<and>
   fst (predict_rating exact_ops example_db 1 2) = Inr 3"
proof -
  have u: "user_dict example_db 1 = Some [(1, 5), (2, 3)]"
    by (simp add: example_db_def)
  have m: "movie_dict example_db 2 =
      Some \<lparr>id_movie = 2, title = ''B'', users = [1, 2], similarities = Map.empty\<rparr>"
    by (simp add: example_db_def)
  have r: "map_of [(1, 5), (2, 3 :: real)] (2 :: int) = Some 3" by simp
  show ?thesis using u m r predict_rating_rated [OF u m r] by simp
qed

text \<open>C6. \<open>predict_rating\<close> raises \<open>BadInputError\<close> exactly when the user is not in
  \<open>user_dict\<close> or the movie is not in \<open>movie_dict\<close>.\<close>

theorem predict_rating_bad_input:
  "fst (predict_rating fl s user_id movie_id) = Inl BadInputError \<longleftrightarrow>
     user_dict s user_id = None \<or> movie_dict s movie_id = None"
proof (cases "user_dict s user_id")
  case None
  then show ?thesis by (simp add: predict_rating_def)
next
  case (Some movies_seen)
  obtain res s' where l: "predict_loop fl s movie_id movies_seen 0 0 = (res, s')"
    by (cases "predict_loop fl s movie_id movies_seen 0 0")
  have "res \<noteq> Inl BadInputError"
    using predict_loop_not_BadInput[of fl s movie_id movies_seen 0 0] l by simp
  then show ?thesis
    using Some l by (auto simp: predict_rating_def split: option.splits sum.splits)
qed

theorem predict_rating_bad_input_witness:
  "fst (predict_rating exact_ops example_db 9 1) = Inl BadInputError \<and>
   fst (predict_rating exact_ops example_db 1 9) = Inl BadInputError \<and>
   fst (predict_rating exact_ops example_db 1 3) \<noteq> Inl BadInputError"
  using predict_rating_bad_input [of exact_ops example_db 9 1]
    predict_rating_bad_input [of exact_ops example_db 1 9]
    predict_rating_bad_input [of exact_ops example_db 1 3]
  by (simp add: example_db_def)

text \<open>C10. For a known user and a known movie that the user has already rated,
  \<open>predict_rating\<close> leaves the whole database, and so every similarity cache, as it
  found it.\<close>

theorem predict_rating_rated_state:
  "user_dict s user_id = Some movies_seen \<Longrightarrow> movie_dict s movie_id = Some mv \<Longrightarrow>
   map_of movies_seen movie_id = Some r \<Longrightarrow>
     snd (predict_rating fl s user_id movie_id) = s \<and>
     cache (snd (predict_rating fl s user_id movie_id)) = cache s"
  by (simp add: predict_rating_def)

theorem predict_rating_rated_state_witness:
  "user_dict example_db 2 = Some [(1, 4), (2, 2)] \<and>
   movie_dict example_db 1 = Some \<lparr>id_movie = 1, title = ''A'', users = [1, 2], similarities = Map.empty\<rparr> \<and>
   map_of [(1, 4), (2, 2 :: real)] (1 :: int) = Some 4 \<and>
   snd (predict_rating exact_ops example_db 2 1) = example_db"
proof -
  have u: "user_dict example_db 2 = Some [(1, 4), (2, 2)]"
    by (simp add: example_db_def)
  have m: "movie_dict example_db 1 =
      Some \<lparr>id_movie = 1, title = ''A'', users = [1, 2], similarities = Map.empty\<rparr>"
    by (simp add: example_db_def)
  have r: "map_of [(1, 4), (2, 2 :: real)] (1 :: int) = Some 4" by simp
  show ?thesis using u m r predict_rating_rated_state [OF u m r] by simp
qed

text \<open>C1. The claim: for two movies with a common rater the similarity is 1 minus the
  average, over the intersection of the two rater sets, of the absolute difference of the
  two ratings, divided by 4.5, and it is 0 when the intersection is empty. The docstring of
  \<open>compute_similarity\<close> describes the same computation (find the users who have seen both
  movies, take the average difference of their ratings), and where no user occurs twice in
  the users list of the first movie the code performs it (\<open>compute_similarity_spec\<close>).
  The loader, however, appends the user to the users list of the movie for every training
  row, and \<open>compute_similarity\<close> counts a user once for each occurrence in the users list
  of the first movie. With the row of user 1 for movie 1 repeated (\<open>dup_ratings\<close>), movie 1
  has users \<open>[1, 1, 2]\<close> and movie 2 has users \<open>[1, 2]\<close>; the rating differences are 2 for
  user 1 and 0 for user 2, so the claimed value is \<open>1 - 1 / 4.5 = 7/9\<close>. For movie 1
  against movie 2 the code averages \<open>2, 2, 0\<close> and returns \<open>1 - (4/3) / 4.5 = 19/27\<close>; for
  movie 2 against movie 1 it returns the claimed \<open>7/9\<close>. The count of three holds for every
  float arithmetic.\<close>

theorem compute_similarity_repeated_rater:
  "init example_movies dup_ratings = Inr dup_db \<and>
   movie_dict dup_db 1 = Some dup_movie_1 \<and> movie_dict dup_db 2 = Some dup_movie_2 \<and>
   set (users dup_movie_1) \<inter> set (users dup_movie_2) = {1, 2} \<and>
   spec_similarity (user_dict dup_db) 1 2 {1, 2} = 7 / 9 \<and>
   compute_similarity exact_ops dup_movie_1 2 (movie_dict dup_db) (user_dict dup_db) = Inr (19 / 27) \<and>
   compute_similarity exact_ops dup_movie_2 1 (movie_dict dup_db) (user_dict dup_db) = Inr (7 / 9) \<and>
   (\<forall>fl. compute_similarity fl dup_movie_1 2 (movie_dict dup_db) (user_dict dup_db) =
      Inr (fsub fl 1
            (fdiv fl
              (fdiv fl
                (fadd fl (fadd fl (fadd fl 0 \<bar>fsub fl 5 3\<bar>) \<bar>fsub fl 5 3\<bar>) \<bar>fsub fl 4 4\<bar>) 3)
              4.5)))"
proof -
  have l: "init example_movies dup_ratings = Inr dup_db" by (rule init_dup)
  have m: "movie_dict dup_db 1 = Some dup_movie_1" "movie_dict dup_db 2 = Some dup_movie_2"
    by (simp_all add: dup_db_def)
  have i: "set (users dup_movie_1) \<inter> set (users dup_movie_2) = {1, 2}"
    by (simp add: dup_movie_1_def dup_movie_2_def)
  have v: "spec_similarity (user_dict dup_db) 1 2 {1, 2} = 7 / 9"
    by (simp add: spec_similarity_def dup_db_def rating_of_def)
  have g: "compute_similarity fl dup_movie_1 2 (movie_dict dup_db) (user_dict dup_db) =
      Inr (fsub fl 1
            (fdiv fl
              (fdiv fl
                (fadd fl (fadd fl (fadd fl 0 \<bar>fsub fl 5 3\<bar>) \<bar>fsub fl 5 3\<bar>) \<bar>fsub fl 4 4\<bar>) 3)
              4.5))" for fl
    by (simp add: compute_similarity_def dup_db_def dup_movie_1_def dup_movie_2_def)
  have c: "compute_similarity exact_ops dup_movie_1 2 (movie_dict dup_db) (user_dict dup_db) =
      Inr (19 / 27)"
    by (simp add: g)
  have r: "compute_similarity exact_ops dup_movie_2 1 (movie_dict dup_db) (user_dict dup_db) =
      Inr (7 / 9)"
    by (simp add: compute_similarity_def dup_db_def dup_movie_1_def dup_movie_2_def)
  show ?thesis using l m i v c r g by blast
qed

text \<open>C9. Whenever \<open>compute_similarity\<close> returns a value, the value is at most 1: it is 0
  when the two users lists share no user, and otherwise 1 minus a nonnegative quantity
  divided by 4.5. There is no lower bound: for every real \<open>L\<close> some database makes it
  return less than \<open>L\<close>. This is stated for exact arithmetic; the bound 1 and the value 0
  also hold for every float arithmetic that preserves signs as rounding to nearest does.\<close>

theorem compute_similarity_at_most_one:
  "(compute_similarity exact_ops A b md ud = Inr v \<longrightarrow>
      v \<le> 1 \<and>
      (\<exists>B. md b = Some B \<and>
         (set (users A) \<inter> set (users B) = {} \<longrightarrow> v = 0) \<and>
         (set (users A) \<inter> set (users B) \<noteq> {} \<longrightarrow> (\<exists>q\<ge>0. v = 1 - q / 4.5)))) \<and>
   (\<exists>A' b' md' ud' v'. compute_similarity exact_ops A' b' md' ud' = Inr v' \<and> v' < L) \<and>
   (sign_preserving fl \<longrightarrow> compute_similarity fl A b md ud = Inr w \<longrightarrow>
      w \<le> 1 \<and>
      (\<exists>B. md b = Some B \<and> (set (users A) \<inter> set (users B) = {} \<longrightarrow> w = 0)))"
proof (intro conjI impI)
  assume c: "compute_similarity exact_ops A b md ud = Inr v"
  then obtain B t n where B: "md b = Some B"
    and l: "similarity_loop exact_ops ud (id_movie A) b (users A) (users B) 0 0 = Inr (t, n)"
    and v: "v = (if n = 0 then 0 else 1 - (t / real n) / 4.5)"
    by (auto simp: compute_similarity_def Let_def split: option.splits sum.splits)
  have t: "0 \<le> t"
    using similarity_loop_nonneg[OF exact_ops_sign_preserving _ l] by simp
  have n: "n = length (filter (\<lambda>u. u \<in> set (users B)) (users A))"
    using similarity_loop_count[OF l] by simp
  have q: "0 \<le> (t / real n)" using t by simp
  show "v \<le> 1" using v q by simp
  have e: "n = 0 \<longleftrightarrow> set (users A) \<inter> set (users B) = {}"
    unfolding n by (auto simp: filter_empty_conv)
  show "\<exists>B. md b = Some B \<and>
         (set (users A) \<inter> set (users B) = {} \<longrightarrow> v = 0) \<and>
         (set (users A) \<inter> set (users B) \<noteq> {} \<longrightarrow> (\<exists>q\<ge>0. v = 1 - q / 4.5))"
    using B v e q by auto
next
  let ?A = "\<lparr>id_movie = 1, title = ''A'', users = [1], similarities = Map.empty\<rparr>"
  let ?B = "\<lparr>id_movie = 2, title = ''B'', users = [1], similarities = Map.empty\<rparr>"
  let ?ud = "[1 \<mapsto> [(1, 4.5 * (2 + \<bar>L\<bar>)), (2, 0)]] :: int \<rightharpoonup> ratings"
  have "compute_similarity exact_ops ?A 2 [2 \<mapsto> ?B] ?ud = Inr (- 1 - \<bar>L\<bar>)"
    by (simp add: compute_similarity_def add_divide_distrib)
  moreover have "- 1 - \<bar>L\<bar> < L" by linarith
  ultimately show "\<exists>A' b' md' ud' v'. compute_similarity exact_ops A' b' md' ud' = Inr v' \<and> v' < L"
    by blast
next
  assume sp: "sign_preserving fl" and c: "compute_similarity fl A b md ud = Inr w"
  from c obtain B t n where B: "md b = Some B"
    and l: "similarity_loop fl ud (id_movie A) b (users A) (users B) 0 0 = Inr (t, n)"
    and w: "w = (if n = 0 then 0 else fsub fl 1 (fdiv fl (fdiv fl t (real n)) 4.5))"
    by (auto simp: compute_similarity_def Let_def split: option.splits sum.splits)
  have t: "0 \<le> t"
    using similarity_loop_nonneg[OF sp _ l] by simp
  have n: "n = length (filter (\<lambda>u. u \<in> set (users B)) (users A))"
    using similarity_loop_count[OF l] by simp
  have e: "n = 0 \<longleftrightarrow> set (users A) \<inter> set (users B) = {}"
    unfolding n by (auto simp: filter_empty_conv)
  show "w \<le> 1"
  proof (cases "n = 0")
    case True
    then show ?thesis using w by simp
  next
    case False
    then have "0 \<le> fdiv fl t (real n)" using sp t by (simp add: sign_preserving_def)
    then have "0 \<le> fdiv fl (fdiv fl t (real n)) 4.5" using sp by (simp add: sign_preserving_def)
    then have "fsub fl 1 (fdiv fl (fdiv fl t (real n)) 4.5) \<le> 1"
      using sp by (simp add: sign_preserving_def)
    then show ?thesis using w False by simp
  qed
  show "\<exists>B. md b = Some B \<and> (set (users A) \<inter> set (users B) = {} \<longrightarrow> w = 0)"
    using B w e by auto
qed

theorem compute_similarity_at_most_one_witness:
  "sign_preserving exact_ops \<and>
   compute_similarity exact_ops
     \<lparr>id_movie = 1, title = ''A'', users = [1, 2], similarities = Map.empty\<rparr> 2
     (movie_dict example_db) (user_dict example_db) = Inr (5 / 9) \<and> (5 / 9 :: real) \<le> 1"
proof -
  have c: "compute_similarity exact_ops
     \<lparr>id_movie = 1, title = ''A'', users = [1, 2], similarities = Map.empty\<rparr> 2
     (movie_dict example_db) (user_dict example_db) = Inr (5 / 9)"
    by (simp add: compute_similarity_def example_db_def)
  show ?thesis
    using c exact_ops_sign_preserving
      compute_similarity_at_most_one [where A =
        "\<lparr>id_movie = 1, title = ''A'', users = [1, 2], similarities = Map.empty\<rparr>"
        and b = 2 and md = "movie_dict example_db" and ud = "user_dict example_db"
        and v = "5 / 9" and w = "5 / 9" and fl = exact_ops and L = 0]
    by simp
qed

text \<open>C4. In a loaded database whose caches agree pairwise, the first call of
  \<open>get_similarity\<close> for a pair of known movies not yet cached returns a value and stores
  it in both caches, each under the other movie's key. After that, whatever further calls of
  \<open>get_similarity\<close> and \<open>predict_rating\<close> are made, a call for the pair in either direction
  returns that same value and leaves the database unchanged, and it does so whatever the
  rating store then holds: the value is read from the cache and not computed again.\<close>

theorem get_similarity_memoized:
  assumes wf: "wf_db s" and sym: "cache_sym s"
    and A: "movie_dict s a \<noteq> None" and B: "movie_dict s b \<noteq> None"
    and first: "cache s a b = None"
  shows "\<exists>v s'. get_similarity fl s a b = (Inr (Some v), s') \<and>
           cache s' a b = Some v \<and> cache s' b a = Some v \<and>
           (\<forall>cs ud'.
              get_similarity fl ((run_calls fl s' cs)\<lparr>user_dict := ud'\<rparr>) a b =
                (Inr (Some v), (run_calls fl s' cs)\<lparr>user_dict := ud'\<rparr>) \<and>
              get_similarity fl ((run_calls fl s' cs)\<lparr>user_dict := ud'\<rparr>) b a =
                (Inr (Some v), (run_calls fl s' cs)\<lparr>user_dict := ud'\<rparr>))"
proof -
  obtain A' B' where A': "movie_dict s a = Some A'" and B': "movie_dict s b = Some B'"
    using A B by auto
  have n: "similarities A' b = None" using first A' by (simp add: cache_def)
  obtain v where c: "compute_similarity fl A' b (movie_dict s) (user_dict s) = Inr v"
    using compute_similarity_returns[OF wf A' B'] by blast
  obtain s' where g: "get_similarity fl s a b = (Inr (Some v), s')"
    by (simp add: get_similarity_unfold A' B' n c)
  let ?P = "\<lambda>t. wf_db t \<and> cache_sym t \<and> cache t a b = Some v \<and> cache t b a = Some v"
  have s': "s' = snd (get_similarity fl s a b)" using g by simp
  have P0: "?P s'"
    using get_similarity_wf[OF wf, of fl a b] get_similarity_cache_sym[OF wf sym, of fl a b]
      get_similarity_cache_update[OF wf sym g]
    by (simp add: s')
  have step: "?P (snd (get_similarity fl t x y))" if "?P t" for t x y
    using that get_similarity_wf[of t fl x y] get_similarity_cache_sym[of t fl x y]
      get_similarity_cache_persists[of t a b v fl x y] get_similarity_cache_persists[of t b a v fl x y]
    by simp
  have later: "?P (run_calls fl s' cs)" for cs
    using run_calls_preserves[where P="?P" and s=s' and cs=cs and fl=fl] step P0 by blast
  have "get_similarity fl ((run_calls fl s' cs)\<lparr>user_dict := ud'\<rparr>) a b =
                (Inr (Some v), (run_calls fl s' cs)\<lparr>user_dict := ud'\<rparr>) \<and>
        get_similarity fl ((run_calls fl s' cs)\<lparr>user_dict := ud'\<rparr>) b a =
                (Inr (Some v), (run_calls fl s' cs)\<lparr>user_dict := ud'\<rparr>)" for cs ud'
    using later[of cs] by (simp add: get_similarity_cached)
  then show ?thesis using g P0 by blast
qed

theorem get_similarity_memoized_witness:
  "wf_db example_db \<and> cache_sym example_db \<and>
   movie_dict example_db 1 \<noteq> None \<and> movie_dict example_db 2 \<noteq> None \<and>
   cache example_db 1 2 = None \<and>
   fst (get_similarity exact_ops example_db 1 2) = Inr (Some (5 / 9)) \<and>
   fst (get_similarity exact_ops
          (run_calls exact_ops (snd (get_similarity exact_ops example_db 1 2)) [Predict_rating 1 3, Get_similarity 2 3])
          2 1) = Inr (Some (5 / 9))"
proof -
  have A: "movie_dict example_db 1 \<noteq> None" and B: "movie_dict example_db 2 \<noteq> None"
    by (simp_all add: example_db_def)
  have first: "cache example_db 1 2 = None"
    by (simp add: cache_def example_db_def)
  have g: "fst (get_similarity exact_ops example_db 1 2) = Inr (Some (5 / 9))"
    by (simp add: get_similarity_unfold compute_similarity_def example_db_def)
  obtain v s' where c: "get_similarity exact_ops example_db 1 2 = (Inr (Some v), s')"
    and later: "\<And>cs ud'. get_similarity exact_ops ((run_calls exact_ops s' cs)\<lparr>user_dict := ud'\<rparr>) 2 1 =
                (Inr (Some v), (run_calls exact_ops s' cs)\<lparr>user_dict := ud'\<rparr>)"
    using get_similarity_memoized [OF wf_example_db cache_sym_example_db A B first] by blast
  have v: "v = 5 / 9" using c g by simp
  have s': "s' = snd (get_similarity exact_ops example_db 1 2)" using c by simp
  let ?t = "run_calls exact_ops s' [Predict_rating 1 3, Get_similarity 2 3]"
  have "get_similarity exact_ops (?t\<lparr>user_dict := user_dict ?t\<rparr>) 2 1 =
          (Inr (Some v), ?t\<lparr>user_dict := user_dict ?t\<rparr>)"
    by (rule later)
  then have "fst (get_similarity exact_ops ?t 2 1) = Inr (Some (5 / 9))"
    by (simp add: v)
  then show ?thesis
    using wf_example_db cache_sym_example_db A B first g unfolding s' by blast
qed

text \<open>C8. Neither \<open>predict_rating\<close> nor \<open>get_similarity\<close>, whatever it returns or raises,
  changes \<open>user_dict\<close>, the set of keys of \<open>movie_dict\<close>, or the id, title or users list of
  any movie: the state after the call differs from the state before at most in similarity
  caches.\<close>

theorem operations_only_touch_caches:
  "user_dict (snd (predict_rating fl s u m)) = user_dict s \<and>
   catalog_membership (snd (predict_rating fl s u m)) = catalog_membership s \<and>
   user_dict (snd (get_similarity fl s a b)) = user_dict s \<and>
   catalog_membership (snd (get_similarity fl s a b)) = catalog_membership s"
  using predict_rating_frame[of fl s u m]
  by (simp add: get_similarity_user_dict get_similarity_membership)

text \<open>C2. In a loaded database, for a known user and a known movie the user has not rated,
  \<open>predict_rating\<close> returns the weighted average of the user's ratings: the sum over the
  movies the user rated of rating times similarity to the target movie, divided by the sum of
  those similarities, where the similarity is the value \<open>get_similarity\<close> gives for the
  target movie and the rated movie, and the two sums are the ones the loop accumulates, in
  the order of the user's dictionary and with the float operations; and it returns exactly
  2.5 when the accumulated sum of similarities equals zero. In exact arithmetic the two
  accumulated sums are the two mathematical sums.\<close>

theorem predict_rating_weighted_average:
  assumes wf: "wf_db s" and sym: "cache_sym s"
    and u: "user_dict s user_id = Some movies_seen"
    and m: "movie_dict s movie_id \<noteq> None"
    and unrated: "map_of movies_seen movie_id = None"
  shows "fst (predict_rating fl s user_id movie_id) = Inr (weighted_average fl s movie_id movies_seen) \<and>
         (snd (weighted_sums fl s movie_id movies_seen 0 0) = 0 \<longrightarrow>
            fst (predict_rating fl s user_id movie_id) = Inr 2.5) \<and>
         (snd (weighted_sums fl s movie_id movies_seen 0 0) \<noteq> 0 \<longrightarrow>
            fst (predict_rating fl s user_id movie_id) =
              Inr (fdiv fl (fst (weighted_sums fl s movie_id movies_seen 0 0))
                           (snd (weighted_sums fl s movie_id movies_seen 0 0)))) \<and>
         weighted_sums exact_ops s movie_id movies_seen 0 0 =
           ((\<Sum>(k, r)\<leftarrow>movies_seen. r * similarity_of exact_ops s movie_id k),
            (\<Sum>(k, r)\<leftarrow>movies_seen. similarity_of exact_ops s movie_id k)) \<and>
         (\<forall>(k, r)\<in>set movies_seen.
            fst (get_similarity fl s movie_id k) = Inr (Some (similarity_of fl s movie_id k)))"
proof -
  have known: "movie_dict s k \<noteq> None" if "(k, r) \<in> set movies_seen" for k r
  proof -
    have "map_of movies_seen k \<noteq> None"
      using that by (simp add: map_of_eq_None_iff image_iff) force
    then show ?thesis by (rule wf_db_rated[OF wf u])
  qed
  obtain res s' where l: "predict_loop fl s movie_id movies_seen 0 0 = (res, s')"
    by (cases "predict_loop fl s movie_id movies_seen 0 0")
  have res: "res = Inr (weighted_sums fl s movie_id movies_seen 0 0)"
    using predict_loop_closed[where seen=movies_seen and n=0 and d=0 and fl=fl, OF wf sym m known]
      l by simp
  obtain num den where sums: "weighted_sums fl s movie_id movies_seen 0 0 = (num, den)"
    by (cases "weighted_sums fl s movie_id movies_seen 0 0")
  have p: "fst (predict_rating fl s user_id movie_id) =
             Inr (if den = 0 then 2.5 else fdiv fl num den)"
    using u m unrated l res sums by (auto simp: predict_rating_def)
  have ex: "weighted_sums exact_ops s movie_id movies_seen 0 0 =
           ((\<Sum>(k, r)\<leftarrow>movies_seen. r * similarity_of exact_ops s movie_id k),
            (\<Sum>(k, r)\<leftarrow>movies_seen. similarity_of exact_ops s movie_id k))"
    by (simp add: weighted_sums_exact)
  have sim: "fst (get_similarity fl s movie_id k) = Inr (Some (similarity_of fl s movie_id k))"
    if kr: "(k, r) \<in> set movies_seen" for k r
  proof -
    obtain v s1 where "get_similarity fl s movie_id k = (Inr (Some v), s1)"
      using get_similarity_returns[OF wf m known[OF kr]] by blast
    then show ?thesis by (simp add: similarity_of_def)
  qed
  have "\<forall>(k, r)\<in>set movies_seen.
            fst (get_similarity fl s movie_id k) = Inr (Some (similarity_of fl s movie_id k))"
    using sim by blast
  then show ?thesis
    using p ex by (simp add: weighted_average_def sums)
qed

theorem predict_rating_weighted_average_witness:
  "wf_db rated_db \<and> cache_sym rated_db \<and>
   user_dict rated_db 3 = Some [(3, 1), (1, 2)] \<and> movie_dict rated_db 2 \<noteq> None \<and>
   map_of [(3, 1), (1, 2 :: real)] (2 :: int) = None \<and>
   similarity_of exact_ops rated_db 2 3 = 0 \<and> similarity_of exact_ops rated_db 2 1 = 5 / 9 \<and>
   weighted_sums exact_ops rated_db 2 [(3, 1), (1, 2)] 0 0 = (1 * 0 + 2 * (5 / 9), 0 + 5 / 9) \<and>
   fst (predict_rating exact_ops rated_db 3 2) = Inr ((1 * 0 + 2 * (5 / 9)) / (0 + 5 / 9)) \<and>
   user_dict example_db 1 = Some [(1, 5), (2, 3)] \<and> movie_dict example_db 3 \<noteq> None \<and>
   map_of [(1, 5), (2, 3 :: real)] (3 :: int) = None \<and>
   snd (weighted_sums exact_ops example_db 3 [(1, 5), (2, 3)] 0 0) = 0 \<and>
   fst (predict_rating exact_ops example_db 1 3) = Inr 2.5"
proof -
  have u: "user_dict rated_db 3 = Some [(3, 1), (1, 2)]"
    and m: "movie_dict rated_db 2 \<noteq> None" by (simp_all add: rated_db_def)
  have n: "map_of [(3, 1), (1, 2 :: real)] (2 :: int) = None" by simp
  have s3: "similarity_of exact_ops rated_db 2 3 = 0"
    by (simp add: similarity_of_def get_similarity_unfold compute_similarity_def rated_db_def)
  have s1: "similarity_of exact_ops rated_db 2 1 = 5 / 9"
    by (simp add: similarity_of_def get_similarity_unfold compute_similarity_def rated_db_def)
  have w: "weighted_sums exact_ops rated_db 2 [(3, 1), (1, 2)] 0 0 =
             (1 * 0 + 2 * (5 / 9), 0 + 5 / 9)"
    by (simp add: s3 s1)
  have p: "fst (predict_rating exact_ops rated_db 3 2) = Inr ((1 * 0 + 2 * (5 / 9)) / (0 + 5 / 9))"
    using predict_rating_weighted_average [OF wf_rated_db cache_sym_rated_db u m n,
        where fl = exact_ops, THEN conjunct2, THEN conjunct2, THEN conjunct1]
    by (simp add: s3 s1)
  have u': "user_dict example_db 1 = Some [(1, 5), (2, 3)]"
    and m': "movie_dict example_db 3 \<noteq> None" by (simp_all add: example_db_def)
  have n': "map_of [(1, 5), (2, 3 :: real)] (3 :: int) = None" by simp
  have z1: "similarity_of exact_ops example_db 3 1 = 0"
    by (simp add: similarity_of_def get_similarity_unfold compute_similarity_def example_db_def)
  have z2: "similarity_of exact_ops example_db 3 2 = 0"
    by (simp add: similarity_of_def get_similarity_unfold compute_similarity_def example_db_def)
  have w': "snd (weighted_sums exact_ops example_db 3 [(1, 5), (2, 3)] 0 0) = 0"
    by (simp add: z1 z2)
  have p': "fst (predict_rating exact_ops example_db 1 3) = Inr 2.5"
    using predict_rating_weighted_average [OF wf_example_db cache_sym_example_db u' m' n',
        where fl = exact_ops, THEN conjunct2, THEN conjunct1]
    by (simp add: z1 z2)
  show ?thesis
    using wf_rated_db cache_sym_rated_db u m n s3 s1 w p u' m' n' w' p' by blast
qed

text \<open>C7, as it holds. \<open>predict_ratings\<close> returns a list exactly when every row's
  \<open>predict_rating\<close> call, made in input order and each in the state left by the calls
  before it, returns a rating; the list then has the length of the input and its \<open>i\<close>-th
  element is (user id of row \<open>i\<close>, catalog title of its movie, that predicted rating, actual
  rating of row \<open>i\<close>). When some row's call raises, \<open>predict_ratings\<close> raises and returns
  no list.\<close>

theorem predict_ratings_rows:
  "(fst (predict_ratings fl s rows) = Inr out \<longleftrightarrow>
      length out = length rows \<and> (\<forall>i<length rows. batch_row fl s rows i (out ! i))) \<and>
   ((\<forall>i<length rows. \<exists>x. batch_row fl s rows i x) \<longrightarrow>
      (\<exists>out'. fst (predict_ratings fl s rows) = Inr out')) \<and>
   ((\<exists>i<length rows. \<forall>x. \<not> batch_row fl s rows i x) \<longrightarrow>
      (\<exists>e. fst (predict_ratings fl s rows) = Inl e))"
proof -
  have char: "fst (predict_ratings fl s rows) = Inr out \<longleftrightarrow>
      length out = length rows \<and> (\<forall>i<length rows. batch_row fl s rows i (out ! i))" for out
    using predict_ratings_loop_rows[of fl s rows "[]" out] by (simp add: predict_ratings_def)
  have ret: "\<exists>out'. fst (predict_ratings fl s rows) = Inr out'"
    if all: "\<forall>i<length rows. \<exists>x. batch_row fl s rows i x"
  proof -
    from all obtain f where f: "\<forall>i<length rows. batch_row fl s rows i (f i)" by metis
    have "fst (predict_ratings fl s rows) = Inr (map f [0..<length rows])"
      using f by (simp add: char)
    then show ?thesis by blast
  qed
  have fail: "\<exists>e. fst (predict_ratings fl s rows) = Inl e"
    if "\<exists>i<length rows. \<forall>x. \<not> batch_row fl s rows i x"
  proof (cases "fst (predict_ratings fl s rows)")
    case (Inl e)
    then show ?thesis by blast
  next
    case (Inr out')
    then show ?thesis using that char[of out'] by blast
  qed
  show ?thesis using char ret fail by blast
qed

theorem predict_ratings_rows_witness:
  "fst (predict_ratings exact_ops rated_db [(3, 2, 4), (1, 1, 5)]) =
     Inr [(3, ''B'', 2, 4), (1, ''A'', 5, 5)] \<and>
   length [(3, ''B'', 2, 4), (1, ''A'', 5, 5 :: real)] = length [(3, 2, 4), (1 :: int, 1 :: int, 5 :: real)] \<and>
   batch_row exact_ops rated_db [(3, 2, 4), (1, 1, 5)] 0 (3, ''B'', 2, 4) \<and>
   batch_row exact_ops rated_db [(3, 2, 4), (1, 1, 5)] 1 (1, ''A'', 5, 5)"
proof -
  let ?rows = "[(3, 2, 4), (1, 1, 5)] :: (int \<times> int \<times> real) list"
  let ?out = "[(3, ''B'', 2, 4), (1, ''A'', 5, 5)] :: (int \<times> string \<times> real \<times> real) list"
  have e: "fst (predict_ratings exact_ops rated_db ?rows) = Inr ?out"
    by (simp add: predict_ratings_def predict_rating_def get_similarity_unfold
        compute_similarity_def rated_db_def)
  have r: "length ?out = length ?rows \<and> (\<forall>i<length ?rows. batch_row exact_ops rated_db ?rows i (?out ! i))"
    using predict_ratings_rows [of exact_ops rated_db ?rows ?out, THEN conjunct1] e by blast
  then have a: "\<forall>i<length ?rows. batch_row exact_ops rated_db ?rows i (?out ! i)" by blast
  have "batch_row exact_ops rated_db ?rows 0 (?out ! 0)" using a [THEN spec, of 0] by simp
  moreover have "batch_row exact_ops rated_db ?rows 1 (?out ! 1)" using a [THEN spec, of 1] by simp
  ultimately show ?thesis using e by simp
qed

text \<open>C7, as stated for every sequence of rows, fails on a row whose user is not in the
  training data: the \<open>BadInputError\<close> of \<open>predict_rating\<close> leaves \<open>predict_ratings\<close>, and
  no list is returned, not even for the rows before it.\<close>

theorem predict_ratings_unknown_user:
  "fst (predict_ratings exact_ops example_db [(1, 1, 5), (9, 1, 4)]) = Inl BadInputError"
  by (simp add: predict_ratings_def predict_rating_def example_db_def)

end
